theory Spec2Isabelle
  imports Complex_Main "HOL-Library.Word"
begin

unbundle bit_operations_syntax

section \<open>EcoFlow: zone partitioning, assignment, aggregation and signal phases\<close>

text \<open>
  The three programs of the repository are embedded function by function:
  \<^item> \<^verbatim>\<open>extract_roads_zones.py\<close>: \<^verbatim>\<open>parse_osm_roads\<close>, \<^verbatim>\<open>assign_zone\<close> and, of
    \<^verbatim>\<open>main\<close>, the loop over the files, the grid construction and the assignment pass;
  \<^item> \<^verbatim>\<open>process.py\<close>: the clipping of the predictions and the aggregation per zone;
  \<^item> \<^verbatim>\<open>app.py\<close>: \<^verbatim>\<open>phase_offset\<close> and \<^verbatim>\<open>simulate_traffic_light\<close>.

  Python floats are modelled as \<^typ>\<open>real\<close>: rounding and NaN are outside the model.
  Python integers are \<^typ>\<open>int\<close>, and Python's \<^verbatim>\<open>%\<close> with a positive modulus is
  HOL's \<open>mod\<close> on \<^typ>\<open>int\<close> (both round towards minus infinity).
  Exceptions are values of \<open>error + 'a\<close>.
\<close>

datatype error = KeyError | ValueError | LineStringError | ZeroDivisionError

type_synonym point = "real \<times> real"

text \<open>
  \<^verbatim>\<open>gpd.GeoDataFrame(rows, geometry='geometry')\<close> on a list of row dictionaries: an
  empty list gives a table without a \<^verbatim>\<open>geometry\<close> column, and the constructor raises
  \<^verbatim>\<open>ValueError\<close>; otherwise the table has one row for each entry.
\<close>

definition GeoDataFrame :: "'a list \<Rightarrow> error + 'a list" where
  "GeoDataFrame rows = (if rows = [] then Inl ValueError else Inr rows)"


section \<open>Polygons\<close>

text \<open>
  A polygon is kept as the list of the corners of its ring, as they are passed to
  \<^verbatim>\<open>Polygon(coords)\<close> (the ring is closed from the last corner back to the first).
  The zone polygons of this program are convex quadrilaterals, and for a convex ring the
  library's predicates are sign conditions on the cross products of the edges with the
  point:
  \<^item> \<^verbatim>\<open>polygon.contains(point)\<close> holds when the point is in the interior, that is,
    strictly on the same side of every edge (the boundary does not count);
  \<^item> the closed region of the polygon is the same condition with the boundary allowed.
\<close>

definition cross :: "point \<Rightarrow> point \<Rightarrow> point \<Rightarrow> real" where
  "cross a b p = (fst b - fst a) * (snd p - snd a) - (snd b - snd a) * (fst p - fst a)"

definition ring_edges :: "point list \<Rightarrow> (point \<times> point) list" where
  "ring_edges ring = zip ring (rotate1 ring)"

definition contains :: "point list \<Rightarrow> point \<Rightarrow> bool" where
  "contains ring p \<longleftrightarrow>
     ring \<noteq> [] \<and>
     (list_all (\<lambda>(a, b). 0 < cross a b p) (ring_edges ring) \<or>
      list_all (\<lambda>(a, b). cross a b p < 0) (ring_edges ring))"

definition region :: "point list \<Rightarrow> point \<Rightarrow> bool" where
  "region ring p \<longleftrightarrow>
     ring \<noteq> [] \<and>
     (list_all (\<lambda>(a, b). 0 \<le> cross a b p) (ring_edges ring) \<or>
      list_all (\<lambda>(a, b). cross a b p \<le> 0) (ring_edges ring))"

text \<open>A point lies on an edge when it is collinear with its two ends and between them.\<close>

definition on_segment :: "point \<Rightarrow> point \<Rightarrow> point \<Rightarrow> bool" where
  "on_segment a b p \<longleftrightarrow>
     cross a b p = 0 \<and>
     min (fst a) (fst b) \<le> fst p \<and> fst p \<le> max (fst a) (fst b) \<and>
     min (snd a) (snd b) \<le> snd p \<and> snd p \<le> max (snd a) (snd b)"

definition on_boundary :: "point list \<Rightarrow> point \<Rightarrow> bool" where
  "on_boundary ring p \<longleftrightarrow> list_ex (\<lambda>(a, b). on_segment a b p) (ring_edges ring)"


section \<open>The grid of zones (\<^verbatim>\<open>extract_roads_zones.py\<close>, \<^verbatim>\<open>main\<close>)\<close>

text \<open>A row of \<^verbatim>\<open>zones_gdf\<close>: the columns \<^verbatim>\<open>zone_id\<close> and \<^verbatim>\<open>geometry\<close>.\<close>

record zone =
  zone_id :: string
  zone_geometry :: "point list"

text \<open>The decimal digits of a non-negative integer, as an f-string prints it.\<close>

fun str_of_nat :: "nat \<Rightarrow> string" where
  "str_of_nat n =
     (if n < 10 then [char_of (48 + n)]
      else str_of_nat (n div 10) @ [char_of (48 + n mod 10)])"

declare str_of_nat.simps [simp del]

text \<open>
  \<^verbatim>\<open>np.linspace(start, stop, num)\<close> with the end point included: a negative \<^verbatim>\<open>num\<close>
  raises \<^verbatim>\<open>ValueError\<close>; otherwise \<^verbatim>\<open>div = num - 1\<close>, the entries are
  \<^verbatim>\<open>k * step + start\<close> for \<^verbatim>\<open>k = 0, ..., num - 1\<close> with \<^verbatim>\<open>step = (stop - start) / div\<close>
  (\<^verbatim>\<open>k / div * delta\<close> when the step is zero, \<^verbatim>\<open>k * delta\<close> when \<^verbatim>\<open>div\<close> is not
  positive), and the last entry is overwritten with \<^verbatim>\<open>stop\<close> when \<^verbatim>\<open>num > 1\<close>.
\<close>

definition linspace :: "real \<Rightarrow> real \<Rightarrow> int \<Rightarrow> error + real list" where
  "linspace start stop num =
     (if num < 0 then Inl ValueError
      else
        let dv = num - 1;
            delta = stop - start;
            step = delta / of_int dv;
            y = map (\<lambda>k. if 0 < dv
                          then (if step = 0 then real k / of_int dv * delta else real k * step)
                          else real k * delta)
                    [0..<nat num];
            y = map (\<lambda>v. v + start) y
        in Inr (if 1 < num then y[nat (num - 1) := stop] else y))"

text \<open>
  The body of the inner loop: the zone of column \<open>i\<close> and row \<open>j\<close>, with the four
  corners in the order in which they are passed to \<^verbatim>\<open>Polygon\<close> and the identifier
  \<^verbatim>\<open>f'z{i}_{j}'\<close>.
\<close>

definition cell :: "real list \<Rightarrow> real list \<Rightarrow> nat \<Rightarrow> nat \<Rightarrow> zone" where
  "cell x_grid y_grid i j =
     \<lparr>zone_id = ''z'' @ str_of_nat i @ ''_'' @ str_of_nat j,
      zone_geometry =
        [(x_grid ! i, y_grid ! j),
         (x_grid ! (i + 1), y_grid ! j),
         (x_grid ! (i + 1), y_grid ! (j + 1)),
         (x_grid ! i, y_grid ! (j + 1))]\<rparr>"

text \<open>
  The two nested loops over \<^verbatim>\<open>range(num_cells_x)\<close> and \<^verbatim>\<open>range(num_cells_y)\<close>, the
  outer one over the columns. Each grid has one entry more than there are cells, so
  every index read is in range.
\<close>

definition make_zones :: "real list \<Rightarrow> real list \<Rightarrow> int \<Rightarrow> int \<Rightarrow> zone list" where
  "make_zones x_grid y_grid num_cells_x num_cells_y =
     concat (map (\<lambda>i. map (\<lambda>j. cell x_grid y_grid i j) [0..<nat num_cells_y])
                 [0..<nat num_cells_x])"

text \<open>
  Lines 61 to 80 of \<^verbatim>\<open>main\<close>, with the local variables \<^verbatim>\<open>buffer\<close>, \<^verbatim>\<open>num_cells_x\<close>
  and \<^verbatim>\<open>num_cells_y\<close> as arguments; \<open>main_zones\<close> gives them the values the program
  assigns (0.01, 10 and 10). The bounds are \<^verbatim>\<open>roads_master.total_bounds\<close>.
\<close>

type_synonym bounds = "real \<times> real \<times> real \<times> real"

definition expand_bounds :: "real \<Rightarrow> bounds \<Rightarrow> bounds" where
  "expand_bounds buffer b =
     (case b of (minx, miny, maxx, maxy) \<Rightarrow>
        (minx - buffer, miny - buffer, maxx + buffer, maxy + buffer))"

definition grid_zones :: "bounds \<Rightarrow> int \<Rightarrow> int \<Rightarrow> error + zone list" where
  "grid_zones b num_cells_x num_cells_y =
     (case b of (minx, miny, maxx, maxy) \<Rightarrow>
        (case linspace minx maxx (num_cells_x + 1) of
           Inl e \<Rightarrow> Inl e
         | Inr x_grid \<Rightarrow>
             (case linspace miny maxy (num_cells_y + 1) of
                Inl e \<Rightarrow> Inl e
              | Inr y_grid \<Rightarrow> GeoDataFrame (make_zones x_grid y_grid num_cells_x num_cells_y))))"

definition partition_zones :: "bounds \<Rightarrow> real \<Rightarrow> int \<Rightarrow> int \<Rightarrow> error + zone list" where
  "partition_zones total_bounds buffer num_cells_x num_cells_y =
     grid_zones (expand_bounds buffer total_bounds) num_cells_x num_cells_y"

definition main_zones :: "bounds \<Rightarrow> error + zone list" where
  "main_zones total_bounds = partition_zones total_bounds 0.01 10 10"


text \<open>
  The boundaries of a linear subdivision of \<open>[lo, hi]\<close> into \<open>n\<close> cells of equal width:
  boundary \<open>k\<close> is \<open>lo + k * (hi - lo) / n\<close>. The properties of the grid are stated
  with it.
\<close>

definition grid_at :: "real \<Rightarrow> real \<Rightarrow> int \<Rightarrow> nat \<Rightarrow> real" where
  "grid_at lo hi n k = lo + real k * (hi - lo) / of_int n"


section \<open>Assignment of a point to a zone (\<^verbatim>\<open>assign_zone\<close>)\<close>

text \<open>
  The loop over \<^verbatim>\<open>zones_gdf.itertuples()\<close> returns at the first zone whose polygon
  contains the point, and \<^verbatim>\<open>None\<close> after the last zone.
\<close>

fun assign_zone :: "point \<Rightarrow> zone list \<Rightarrow> string option" where
  "assign_zone p [] = None"
| "assign_zone p (z # zones) =
     (if contains (zone_geometry z) p then Some (zone_id z) else assign_zone p zones)"


section \<open>Reading the roads (\<^verbatim>\<open>parse_osm_roads\<close> and the loop over the files)\<close>



record road =
  road_id :: string
  highway :: string
  road_geometry :: "point list"
















section \<open>The assignment pass (lines 83 to 93 of \<^verbatim>\<open>main\<close>)\<close>

text \<open>
  A row of the roads table after the pass: the columns of the parsed road and the
  column \<^verbatim>\<open>zone_id\<close>, null when no zone contains the centroid.
\<close>

record assigned_road = road +
  road_zone_id :: "string option"




section \<open>Signal phases (\<^verbatim>\<open>app.py\<close>)\<close>

text \<open>
  \<^verbatim>\<open>simulate_traffic_light(congestion, tick, offset)\<close>: the position in the cycle of
  twelve ticks, then one of three timing splits chosen by the congestion. The result
  is one of the strings \<^verbatim>\<open>'red'\<close>, \<^verbatim>\<open>'yellow'\<close>, \<^verbatim>\<open>'green'\<close>.
\<close>

definition simulate_traffic_light :: "real \<Rightarrow> int \<Rightarrow> int \<Rightarrow> string" where
  "simulate_traffic_light congestion tick offset =
     (let cycle_length = 12;
          pos_in_cycle = (tick + offset) mod cycle_length
      in if congestion > 0.7 then
           (if pos_in_cycle < 8 then ''red''
            else if pos_in_cycle < 10 then ''yellow''
            else ''green'')
         else if congestion > 0.3 then
           (if pos_in_cycle < 5 then ''red''
            else if pos_in_cycle < 7 then ''yellow''
            else ''green'')
         else
           (if pos_in_cycle < 3 then ''red''
            else if pos_in_cycle < 5 then ''yellow''
            else ''green''))"


text \<open>
  \<^verbatim>\<open>phase_offset\<close> calls the built-in \<^verbatim>\<open>hash\<close>. The road identifiers are the \<^verbatim>\<open>id\<close>
  attributes of the ways, which are strings; the data model also allows integers. The
  built-in is modelled as CPython (3.11 and later) computes it:
  \<^item> the hash of an integer is its value modulo \<open>2^61 - 1\<close> with the sign kept, and
    \<open>-2\<close> in place of \<open>-1\<close>;
  \<^item> the hash of a string is SipHash-1-3 of its bytes (one byte for each character,
    for characters below 256) under the 128-bit key of the process, read as a signed
    64-bit integer, \<open>-2\<close> in place of \<open>-1\<close>, and 0 for the empty string;
  \<^item> the key of the process is drawn at random when the interpreter starts, unless the
    environment variable \<^verbatim>\<open>PYTHONHASHSEED\<close> is set: the value 0 gives the zero key,
    another value \<open>n\<close> seeds a linear congruential generator whose first sixteen bytes
    are the key.
\<close>

type_synonym u64 = "64 word"

text \<open>
  \<^verbatim>\<open>lcg_urandom\<close> of the interpreter's start-up code: the state is an unsigned 32-bit
  integer, and each byte of the secret is bits 16 to 23 of the next state.
\<close>

definition lcg_step :: "32 word \<Rightarrow> 32 word" where
  "lcg_step x = x * 214013 + 2531011"

fun lcg_urandom :: "32 word \<Rightarrow> nat \<Rightarrow> 8 word list" where
  "lcg_urandom x 0 = []"
| "lcg_urandom x (Suc n) =
     (let x = lcg_step x in ucast (drop_bit 16 x AND 0xff) # lcg_urandom x n)"

text \<open>A sequence of at most eight bytes read as a little-endian 64-bit integer.\<close>

definition le64 :: "8 word list \<Rightarrow> u64" where
  "le64 bs = foldr (\<lambda>b acc. ucast b OR push_bit 8 acc) bs 0"

text \<open>The macros \<^verbatim>\<open>ROTATE\<close>, \<^verbatim>\<open>HALF_ROUND\<close> and \<^verbatim>\<open>SINGLE_ROUND\<close>.\<close>

definition ROTATE :: "u64 \<Rightarrow> nat \<Rightarrow> u64" where
  "ROTATE x b = push_bit b x OR drop_bit (64 - b) x"

definition half_round :: "u64 \<Rightarrow> u64 \<Rightarrow> u64 \<Rightarrow> u64 \<Rightarrow> nat \<Rightarrow> nat \<Rightarrow> u64 \<times> u64 \<times> u64 \<times> u64" where
  "half_round a b c d s t =
     (let a = a + b; c = c + d;
          b = ROTATE b s XOR a;
          d = ROTATE d t XOR c;
          a = ROTATE a 32
      in (a, b, c, d))"

definition single_round :: "u64 \<times> u64 \<times> u64 \<times> u64 \<Rightarrow> u64 \<times> u64 \<times> u64 \<times> u64" where
  "single_round v =
     (case v of (v0, v1, v2, v3) \<Rightarrow>
        (case half_round v0 v1 v2 v3 13 16 of (v0, v1, v2, v3) \<Rightarrow>
           (case half_round v2 v1 v0 v3 17 21 of (v2, v1, v0, v3) \<Rightarrow> (v0, v1, v2, v3))))"

text \<open>The loop over the full blocks of eight bytes; it returns the remaining bytes too.\<close>

function sip_blocks :: "u64 \<times> u64 \<times> u64 \<times> u64 \<Rightarrow> 8 word list \<Rightarrow> (u64 \<times> u64 \<times> u64 \<times> u64) \<times> 8 word list" where
  "sip_blocks v src =
     (if 8 \<le> length src then
        (case v of (v0, v1, v2, v3) \<Rightarrow>
           let mi = le64 (take 8 src);
               v3 = v3 XOR mi
           in (case single_round (v0, v1, v2, v3) of (v0, v1, v2, v3) \<Rightarrow>
                 sip_blocks (v0 XOR mi, v1, v2, v3) (drop 8 src)))
      else (v, src))"
  by pat_completeness auto
termination
  by (relation "measure (\<lambda>(v, src). length src)") auto

declare sip_blocks.simps [simp del]

text \<open>
  \<^verbatim>\<open>siphash13(k0, k1, src, src_sz)\<close>: one round for each block, the last block made of
  the remaining bytes and the length in its top byte, then three finishing rounds.
\<close>

definition siphash13 :: "u64 \<Rightarrow> u64 \<Rightarrow> 8 word list \<Rightarrow> u64" where
  "siphash13 k0 k1 src =
     (let b = push_bit 56 (of_nat (length src));
          v0 = k0 XOR 0x736f6d6570736575;
          v1 = k1 XOR 0x646f72616e646f6d;
          v2 = k0 XOR 0x6c7967656e657261;
          v3 = k1 XOR 0x7465646279746573
      in (case sip_blocks (v0, v1, v2, v3) src of ((v0, v1, v2, v3), rest) \<Rightarrow>
            let b = b OR le64 rest;
                v3 = v3 XOR b
            in (case single_round (v0, v1, v2, v3) of (v0, v1, v2, v3) \<Rightarrow>
                  let v0 = v0 XOR b;
                      v2 = v2 XOR 0xff
                  in (case single_round (single_round (single_round (v0, v1, v2, v3))) of
                        (v0, v1, v2, v3) \<Rightarrow> (v0 XOR v1) XOR (v2 XOR v3)))))"

text \<open>
  The key \<open>(k0, k1)\<close> of a process started with \<^verbatim>\<open>PYTHONHASHSEED\<close> set to \<open>seed\<close>: the
  first two little-endian words of the 24 bytes of the secret.
\<close>

definition secret_of_seed :: "32 word \<Rightarrow> u64 \<times> u64" where
  "secret_of_seed seed =
     (let secret = (if seed = 0 then replicate 24 0 else lcg_urandom seed 24)
      in (le64 (take 8 secret), le64 (take 8 (drop 8 secret))))"

text \<open>
  \<^verbatim>\<open>_Py_HashBytes\<close> for the bytes of a string, and the hash of an integer
  (\<^verbatim>\<open>long_hash\<close>).
\<close>

definition hash_bytes :: "u64 \<times> u64 \<Rightarrow> 8 word list \<Rightarrow> int" where
  "hash_bytes key src =
     (if length src = 0 then 0
      else let x = sint (siphash13 (fst key) (snd key) src)
           in if x = - 1 then - 2 else x)"

definition str_bytes :: "string \<Rightarrow> 8 word list" where
  "str_bytes s = map (\<lambda>c. of_nat (of_char c)) s"

definition long_hash :: "int \<Rightarrow> int" where
  "long_hash n =
     (let x = sgn n * (\<bar>n\<bar> mod (2 ^ 61 - 1))
      in if x = - 1 then - 2 else x)"

datatype road_ident = IntId int | StrId string

definition py_hash :: "u64 \<times> u64 \<Rightarrow> road_ident \<Rightarrow> int" where
  "py_hash key x = (case x of IntId n \<Rightarrow> long_hash n | StrId s \<Rightarrow> hash_bytes key (str_bytes s))"

text \<open>
  \<^verbatim>\<open>phase_offset(road_id, cycle_length=12)\<close>, in a process with the given hash key
  (the argument \<^verbatim>\<open>road_id\<close> is \<open>rid\<close> here).
  \<^verbatim>\<open>build_road_layer\<close> calls it with the default cycle length.
\<close>

definition phase_offset :: "u64 \<times> u64 \<Rightarrow> road_ident \<Rightarrow> int \<Rightarrow> error + int" where
  "phase_offset key rid cycle_length =
     (if cycle_length = 0 then Inl ZeroDivisionError
      else Inr (py_hash key rid mod cycle_length))"


section \<open>Prediction and aggregation (\<^verbatim>\<open>process.py\<close>)\<close>

text \<open>
  \<^verbatim>\<open>np.clip(a, a_min, a_max)\<close> is \<^verbatim>\<open>minimum(a_max, maximum(a, a_min))\<close>, element by
  element.
\<close>

definition clip :: "real \<Rightarrow> real \<Rightarrow> real \<Rightarrow> real" where
  "clip a a_min a_max = min a_max (max a a_min)"

definition clip_all :: "real list \<Rightarrow> real \<Rightarrow> real \<Rightarrow> real list" where
  "clip_all pred a_min a_max = map (\<lambda>a. clip a a_min a_max) pred"


text \<open>
  The rows of the tables of \<^verbatim>\<open>process.py\<close>. \<^verbatim>\<open>master_roads.gpkg\<close> holds the assigned
  roads, with the column \<^verbatim>\<open>zone_id\<close> (null when unassigned) as
  \<^verbatim>\<open>extract_roads_zones.py\<close> wrote it, so the spatial join of line 53 is not executed.
  The column \<^verbatim>\<open>congestion\<close> is added to the roads and to the zones.
\<close>

record scored_road = assigned_road +
  road_congestion :: real

record scored_zone = zone +
  zone_congestion :: real

text \<open>
  \<^verbatim>\<open>roads_gdf['congestion'] = values\<close>: the values must be as many as the rows.
\<close>

definition set_congestion :: "assigned_road list \<Rightarrow> real list \<Rightarrow> error + scored_road list" where
  "set_congestion roads vals =
     (if length vals \<noteq> length roads then Inl ValueError
      else Inr (map (\<lambda>(r, c).
             \<lparr>road_id = road_id r, highway = highway r, road_geometry = road_geometry r,
              road_zone_id = road_zone_id r, road_congestion = c\<rparr>) (zip roads vals)))"

definition mean :: "real list \<Rightarrow> real" where
  "mean xs = sum_list xs / real (length xs)"

text \<open>
  \<^verbatim>\<open>roads_gdf.groupby('zone_id')['congestion'].mean().reset_index()\<close>: one row per
  zone identifier that occurs in the roads, null keys dropped, with the mean of the
  congestion of the group. (The library orders the rows by key; the order plays no role
  in the join that follows.)
\<close>

definition groupby_mean :: "scored_road list \<Rightarrow> (string \<times> real) list" where
  "groupby_mean roads =
     map (\<lambda>k. (k, mean (map road_congestion (filter (\<lambda>r. road_zone_id r = Some k) roads))))
         (remdups (List.map_filter road_zone_id roads))"

text \<open>
  \<^verbatim>\<open>zones_gdf.merge(zones_congestion, on='zone_id', how='left')\<close>: every zone keeps its
  row, with the value of its key when the key has a row on the right and a missing value
  otherwise; \<^verbatim>\<open>fillna(0)\<close> then replaces the missing values.
\<close>

definition merge_left :: "zone list \<Rightarrow> (string \<times> real) list \<Rightarrow> (zone \<times> real option) list" where
  "merge_left zones zones_congestion = map (\<lambda>z. (z, map_of zones_congestion (zone_id z))) zones"

definition fillna :: "real \<Rightarrow> real option \<Rightarrow> real" where
  "fillna v c = (case c of None \<Rightarrow> v | Some x \<Rightarrow> x)"

definition aggregate :: "scored_road list \<Rightarrow> zone list \<Rightarrow> scored_zone list" where
  "aggregate roads zones =
     map (\<lambda>(z, c). \<lparr>zone_id = zone_id z, zone_geometry = zone_geometry z,
                    zone_congestion = fillna 0 c\<rparr>)
         (merge_left zones (groupby_mean roads))"

text \<open>
  Lines 48 to 59 of \<^verbatim>\<open>main\<close>; \<open>pred_roads\<close> is what the model returned for the roads.
\<close>

definition process_main ::
  "assigned_road list \<Rightarrow> zone list \<Rightarrow> real list \<Rightarrow> error + (scored_road list \<times> scored_zone list)" where
  "process_main roads zones pred_roads =
     (case set_congestion roads (clip_all pred_roads 0 1) of
        Inl e \<Rightarrow> Inl e
      | Inr roads' \<Rightarrow> Inr (roads', aggregate roads' zones))"


section \<open>Properties of the signal phases\<close>

lemma pos_in_cycle_range: "0 \<le> ((tick::int) + offset) mod 12 \<and> (tick + offset) mod 12 < 12"
  by simp

text \<open>
  Claim C2. The position is \<open>(tick + offset) mod 12\<close> and lies in \<open>[0, 12)\<close>. With a
  congestion above 0.7 the light is red on positions \<open>[0, 8)\<close>, yellow on \<open>[8, 10)\<close> and
  green on \<open>[10, 12)\<close>; with a congestion above 0.3 and at most 0.7 it is red on
  \<open>[0, 5)\<close>, yellow on \<open>[5, 7)\<close>, green on \<open>[7, 12)\<close>; with a congestion of at most 0.3 it
  is red on \<open>[0, 3)\<close>, yellow on \<open>[3, 5)\<close>, green on \<open>[5, 12)\<close>. The comparisons are strict,
  so 0.7 is in the middle band and 0.3 in the low one.
\<close>

theorem simulate_traffic_light_bands:
  "let pos = (tick + offset) mod 12; s = simulate_traffic_light c tick offset
   in pos \<in> {0..<12} \<and>
      (0.7 < c \<longrightarrow>
         (s = ''red'' \<longleftrightarrow> pos \<in> {0..<8}) \<and> (s = ''yellow'' \<longleftrightarrow> pos \<in> {8..<10}) \<and>
         (s = ''green'' \<longleftrightarrow> pos \<in> {10..<12})) \<and>
      (0.3 < c \<and> c \<le> 0.7 \<longrightarrow>
         (s = ''red'' \<longleftrightarrow> pos \<in> {0..<5}) \<and> (s = ''yellow'' \<longleftrightarrow> pos \<in> {5..<7}) \<and>
         (s = ''green'' \<longleftrightarrow> pos \<in> {7..<12})) \<and>
      (c \<le> 0.3 \<longrightarrow>
         (s = ''red'' \<longleftrightarrow> pos \<in> {0..<3}) \<and> (s = ''yellow'' \<longleftrightarrow> pos \<in> {3..<5}) \<and>
         (s = ''green'' \<longleftrightarrow> pos \<in> {5..<12}))"
  using pos_in_cycle_range [of tick offset]
  by (simp add: simulate_traffic_light_def Let_def)

theorem simulate_traffic_light_bands_witness:
  "simulate_traffic_light 0.8 8 0 = ''yellow'' \<and> simulate_traffic_light 0.8 0 0 = ''red''
   \<and> simulate_traffic_light 0.2 3 0 = ''yellow'' \<and> simulate_traffic_light 0.7 5 0 = ''yellow''
   \<and> simulate_traffic_light 0.3 3 0 = ''yellow''"
  using simulate_traffic_light_bands [of 8 0 "0.8"] simulate_traffic_light_bands [of 0 0 "0.8"]
    simulate_traffic_light_bands [of 3 0 "0.2"] simulate_traffic_light_bands [of 5 0 "0.7"]
    simulate_traffic_light_bands [of 3 0 "0.3"]
  by (simp add: Let_def)

section \<open>Properties of the clipping\<close>

lemma set_congestion_column:
  assumes "set_congestion roads vals = Inr roads'"
  shows "map road_congestion roads' = vals"
proof -
  from assms have len: "length vals = length roads"
    and r: "roads' = map (\<lambda>(r, c).
             \<lparr>road_id = road_id r, highway = highway r, road_geometry = road_geometry r,
              road_zone_id = road_zone_id r, road_congestion = c\<rparr>) (zip roads vals)"
    by (auto simp: set_congestion_def split: if_splits)
  have "map road_congestion roads' = map snd (zip roads vals)"
    unfolding r by (simp add: case_prod_beta)
  with len show ?thesis by simp
qed

text \<open>
  Claim C6. Every predicted value is stored clamped into \<open>[0, 1]\<close>: the clipped column
  has one entry per prediction (nothing is rejected), an entry below 0 becomes 0, an
  entry above 1 becomes 1, and an entry already in \<open>[0, 1]\<close> is unchanged; and the
  congestion column of the roads of a run is exactly this clipped column.
\<close>

theorem clip_all_clamps:
  "length (clip_all pred 0 1) = length pred \<and>
   (\<forall>k < length pred.
      clip_all pred 0 1 ! k \<in> {0..1} \<and>
      (pred ! k < 0 \<longrightarrow> clip_all pred 0 1 ! k = 0) \<and>
      (1 < pred ! k \<longrightarrow> clip_all pred 0 1 ! k = 1) \<and>
      (0 \<le> pred ! k \<and> pred ! k \<le> 1 \<longrightarrow> clip_all pred 0 1 ! k = pred ! k)) \<and>
   (\<forall>roads zones roads' zones'.
      process_main roads zones pred = Inr (roads', zones') \<longrightarrow>
      map road_congestion roads' = clip_all pred 0 1)"
proof (intro conjI allI impI)
  fix roads zones roads' zones'
  assume "process_main roads zones pred = Inr (roads', zones')"
  then have "set_congestion roads (clip_all pred 0 1) = Inr roads'"
    by (auto simp: process_main_def split: sum.splits)
  then show "map road_congestion roads' = clip_all pred 0 1"
    by (rule set_congestion_column)
qed (simp_all add: clip_all_def clip_def)

theorem clip_all_clamps_witness:
  "clip_all [-0.1, 1.3, 0.25] 0 1 = [0, 1, 0.25]"
  using clip_all_clamps [of "[-0.1, 1.3, 0.25]"]
  by (simp add: clip_all_def clip_def)

section \<open>Properties of the grid of zones\<close>

lemma linspace_grid:
  assumes "0 < n"
  shows "linspace lo hi (n + 1) = Inr (map (grid_at lo hi n) [0..<nat n + 1])"
proof -
  define m where "m = nat n"
  with assms have n: "n = int m" and m: "0 < m" by simp_all
  define f where "f = (\<lambda>k. (if (hi - lo) / of_int n = 0 then real k / of_int n * (hi - lo)
        else real k * ((hi - lo) / of_int n)) + lo)"
  have f: "f k = grid_at lo hi n k" for k
    using m by (simp add: f_def grid_at_def n)
  have "(map f [0..<Suc m])[m := hi] = map (grid_at lo hi n) [0..<Suc m]"
  proof (rule nth_equalityI)
    show "length ((map f [0..<Suc m])[m := hi]) = length (map (grid_at lo hi n) [0..<Suc m])"
      by simp
  next
    fix i assume "i < length ((map f [0..<Suc m])[m := hi])"
    then have i: "i < Suc m" by simp
    show "(map f [0..<Suc m])[m := hi] ! i = map (grid_at lo hi n) [0..<Suc m] ! i"
    proof (cases "i = m")
      case True
      have "grid_at lo hi n m = hi" using m by (simp add: grid_at_def n)
      with True show ?thesis by (simp add: nth_append)
    next
      case False
      with i have "i < m" by simp
      with False show ?thesis by (simp add: nth_append f del: upt_Suc)
    qed
  qed
  moreover have "linspace lo hi (n + 1) = Inr ((map f [0..<Suc m])[m := hi])"
    using assms by (simp add: linspace_def Let_def f_def comp_def m_def nat_add_distrib del: upt_Suc)
  ultimately show ?thesis by (simp add: m_def)
qed

lemma grid_at_0: "grid_at lo hi n 0 = lo" by (simp add: grid_at_def)
lemma grid_at_n: "0 < n \<Longrightarrow> grid_at lo hi n (nat n) = hi" by (simp add: grid_at_def)
lemma grid_at_mono: "0 < n \<Longrightarrow> lo < hi \<Longrightarrow> i \<le> j \<Longrightarrow> grid_at lo hi n i \<le> grid_at lo hi n j"
  by (simp add: grid_at_def divide_le_cancel mult_right_mono)
lemma grid_at_strict: "0 < n \<Longrightarrow> lo < hi \<Longrightarrow> i < j \<Longrightarrow> grid_at lo hi n i < grid_at lo hi n j"
  by (simp add: grid_at_def divide_less_cancel)

lemma between_cells:
  fixes g :: "nat \<Rightarrow> real"
  assumes "g 0 \<le> v" "v \<le> g n" "0 < n"
  shows "\<exists>i<n. g i \<le> v \<and> v \<le> g (Suc i)"
  using assms
proof (induction n)
  case 0
  then show ?case by simp
next
  case (Suc n)
  show ?case
  proof (cases "v \<le> g n")
    case True
    show ?thesis
    proof (cases "n = 0")
      case True
      with Suc.prems show ?thesis by auto
    next
      case False
      with Suc.IH [OF Suc.prems(1) True] obtain i where "i < n" "g i \<le> v \<and> v \<le> g (Suc i)" by auto
      then show ?thesis using less_Suc_eq by blast
    qed
  next
    case False
    with Suc.prems show ?thesis by (intro exI [of _ n]) simp
  qed
qed

lemma concat_map_grid:
  "concat (map (\<lambda>i. map (f i) [0..<m]) [0..<n]) = map (\<lambda>k. f (k div m) (k mod m)) [0..<n * m]"
proof (induction n)
  case 0
  show ?case by simp
next
  case (Suc n)
  have "map (\<lambda>k. f (k div m) (k mod m)) [n * m..<n * m + m] = map (f n) [0..<m]"
    by (rule nth_equalityI) (simp_all add: )
  moreover have "[0..<Suc n * m] = [0..<n * m] @ [n * m..<n * m + m]"
    using upt_add_eq_append [of 0 "n * m" m] by (simp add: add.commute)
  ultimately show ?case using Suc
    by (simp del: mult_Suc)
qed


lemma make_zones_cells:
  "make_zones xg yg nx ny = map (\<lambda>k. cell xg yg (k div nat ny) (k mod nat ny)) [0..<nat nx * nat ny]"
  unfolding make_zones_def by (rule concat_map_grid)

lemma contains_rect:
  assumes "x0 < x1" "y0 < y1"
  shows "contains [(x0, y0), (x1, y0), (x1, y1), (x0, y1)] p \<longleftrightarrow>
         x0 < fst p \<and> fst p < x1 \<and> y0 < snd p \<and> snd p < y1"
  using assms
  by (auto simp: contains_def ring_edges_def cross_def zero_less_mult_iff mult_less_0_iff)

lemma region_rect:
  assumes "x0 < x1" "y0 < y1"
  shows "region [(x0, y0), (x1, y0), (x1, y1), (x0, y1)] p \<longleftrightarrow>
         x0 \<le> fst p \<and> fst p \<le> x1 \<and> y0 \<le> snd p \<and> snd p \<le> y1"
  using assms
  by (auto simp: region_def ring_edges_def cross_def zero_le_mult_iff mult_le_0_iff)


lemma grid_zones_cells:
  assumes "0 < nx" "0 < ny"
  shows "grid_zones (minx, miny, maxx, maxy) nx ny =
         Inr (map (\<lambda>k. cell (map (grid_at minx maxx nx) [0..<nat nx + 1])
                             (map (grid_at miny maxy ny) [0..<nat ny + 1])
                             (k div nat ny) (k mod nat ny))
                  [0..<nat nx * nat ny])"
  using assms by (simp add: grid_zones_def linspace_grid make_zones_cells GeoDataFrame_def del: upt_Suc)

lemma cell_grid:
  assumes "i < nat nx" "j < nat ny"
  shows "cell (map (grid_at minx maxx nx) [0..<nat nx + 1])
              (map (grid_at miny maxy ny) [0..<nat ny + 1]) i j =
         \<lparr>zone_id = ''z'' @ str_of_nat i @ ''_'' @ str_of_nat j,
          zone_geometry =
            [(grid_at minx maxx nx i, grid_at miny maxy ny j),
             (grid_at minx maxx nx (i + 1), grid_at miny maxy ny j),
             (grid_at minx maxx nx (i + 1), grid_at miny maxy ny (j + 1)),
             (grid_at minx maxx nx i, grid_at miny maxy ny (j + 1))]\<rparr>"
proof -
  have "map (grid_at minx maxx nx) [0..<nat nx + 1] ! i = grid_at minx maxx nx i"
       "map (grid_at minx maxx nx) [0..<nat nx + 1] ! (i + 1) = grid_at minx maxx nx (i + 1)"
       "map (grid_at miny maxy ny) [0..<nat ny + 1] ! j = grid_at miny maxy ny j"
       "map (grid_at miny maxy ny) [0..<nat ny + 1] ! (j + 1) = grid_at miny maxy ny (j + 1)"
    using assms by (simp_all add: nth_append del: upt_Suc)
  then show ?thesis unfolding cell_def by simp
qed

lemma cell_index: 
  assumes "i < (n::nat)" "j < m"
  shows "i * m + j < n * m" "(i * m + j) div m = i" "(i * m + j) mod m = j"
proof -
  have "i * m + j < i * m + m" using assms by simp
  also have "\<dots> = Suc i * m" by simp
  also have "\<dots> \<le> n * m" using assms(1) by (intro mult_le_mono1) simp
  finally show "i * m + j < n * m" .
  show "(i * m + j) div m = i" "(i * m + j) mod m = j" using assms by simp_all
qed

lemma grid_zones_tiling_aux:
  assumes "minx < maxx" and "miny < maxy" and "0 < nx" and "0 < ny"
  shows "\<exists>zones. grid_zones (minx, miny, maxx, maxy) nx ny = Inr zones \<and>
     length zones = nat (nx * ny) \<and>
     (\<forall>i < nat nx. \<forall>j < nat ny.
        zones ! (i * nat ny + j) =
          \<lparr>zone_id = ''z'' @ str_of_nat i @ ''_'' @ str_of_nat j,
           zone_geometry =
             [(grid_at minx maxx nx i, grid_at miny maxy ny j),
              (grid_at minx maxx nx (i + 1), grid_at miny maxy ny j),
              (grid_at minx maxx nx (i + 1), grid_at miny maxy ny (j + 1)),
              (grid_at minx maxx nx i, grid_at miny maxy ny (j + 1))]\<rparr> \<and>
        (\<forall>p. region (zone_geometry (zones ! (i * nat ny + j))) p \<longleftrightarrow>
           grid_at minx maxx nx i \<le> fst p \<and> fst p \<le> grid_at minx maxx nx (i + 1) \<and>
           grid_at miny maxy ny j \<le> snd p \<and> snd p \<le> grid_at miny maxy ny (j + 1))) \<and>
     (\<forall>p. (\<exists>z \<in> set zones. region (zone_geometry z) p) \<longleftrightarrow>
           minx \<le> fst p \<and> fst p \<le> maxx \<and> miny \<le> snd p \<and> snd p \<le> maxy) \<and>
     (\<forall>a < length zones. \<forall>b < length zones. a \<noteq> b \<longrightarrow>
        (\<forall>p. \<not> (contains (zone_geometry (zones ! a)) p \<and> contains (zone_geometry (zones ! b)) p)))"
proof -
  define X where "X = grid_at minx maxx nx"
  define Y where "Y = grid_at miny maxy ny"
  define n where "n = nat nx"
  define m where "m = nat ny"
  define C where "C = (\<lambda>i j. \<lparr>zone_id = ''z'' @ str_of_nat i @ ''_'' @ str_of_nat j,
           zone_geometry = [(X i, Y j), (X (i + 1), Y j), (X (i + 1), Y (j + 1)), (X i, Y (j + 1))]\<rparr>)"
  define zones where "zones = map (\<lambda>k. C (k div m) (k mod m)) [0..<n * m]"
  have nm: "0 < n" "0 < m" using assms by (simp_all add: n_def m_def)
  have X0: "X 0 = minx" and Xn: "X n = maxx" and Y0: "Y 0 = miny" and Ym: "Y m = maxy"
    using assms by (simp_all add: X_def Y_def n_def m_def grid_at_0 grid_at_n)
  have Xmono: "i \<le> j \<Longrightarrow> X i \<le> X j" and Ymono: "i \<le> j \<Longrightarrow> Y i \<le> Y j" for i j
    using assms by (simp_all add: X_def Y_def grid_at_mono)
  have Xstrict: "X i < X (i + 1)" and Ystrict: "Y i < Y (i + 1)" for i
    using assms by (simp_all add: X_def Y_def grid_at_strict)
  have div_lt: "k div m < n" and mod_lt: "k mod m < m" if "k < n * m" for k
    using that nm by (simp_all add: less_mult_imp_div_less)
  have zk: "zones ! k = C (k div m) (k mod m)" if "k < n * m" for k
    using that by (simp add: zones_def)
  have len: "length zones = n * m" by (simp add: zones_def)
  have reg: "region (zone_geometry (C i j)) p \<longleftrightarrow>
          X i \<le> fst p \<and> fst p \<le> X (i + 1) \<and> Y j \<le> snd p \<and> snd p \<le> Y (j + 1)" for i j p
    unfolding C_def using region_rect [OF Xstrict Ystrict] by simp
  have con: "contains (zone_geometry (C i j)) p \<longleftrightarrow>
          X i < fst p \<and> fst p < X (i + 1) \<and> Y j < snd p \<and> snd p < Y (j + 1)" for i j p
    unfolding C_def using contains_rect [OF Xstrict Ystrict] by simp
  have run: "grid_zones (minx, miny, maxx, maxy) nx ny = Inr zones"
  proof -
    have "cell (map (grid_at minx maxx nx) [0..<nat nx + 1])
              (map (grid_at miny maxy ny) [0..<nat ny + 1]) (k div m) (k mod m) = C (k div m) (k mod m)"
      if "k < n * m" for k
      using cell_grid [of "k div m" nx "k mod m" ny minx maxx miny maxy] div_lt [OF that] mod_lt [OF that]
      by (simp add: C_def X_def Y_def n_def m_def)
    then have "map (\<lambda>k. cell (map (grid_at minx maxx nx) [0..<nat nx + 1])
              (map (grid_at miny maxy ny) [0..<nat ny + 1]) (k div m) (k mod m)) [0..<n * m] = zones"
      unfolding zones_def by (intro map_cong) simp_all
    then show ?thesis
      using grid_zones_cells [OF assms(3,4), of minx miny maxx maxy] by (simp add: n_def m_def)
  qed
  have count: "length zones = nat (nx * ny)"
    using assms by (simp add: len n_def m_def nat_mult_distrib)
  have cells: "zones ! (i * m + j) = C i j" if "i < n" "j < m" for i j
    using zk [OF cell_index(1) [OF that]] cell_index(2,3) [OF that] by simp
  have cover: "(\<exists>z \<in> set zones. region (zone_geometry z) p) \<longleftrightarrow>
           minx \<le> fst p \<and> fst p \<le> maxx \<and> miny \<le> snd p \<and> snd p \<le> maxy" for p
  proof
    assume "\<exists>z \<in> set zones. region (zone_geometry z) p"
    then obtain k where k: "k < n * m" and r: "region (zone_geometry (C (k div m) (k mod m))) p"
      by (auto simp: zones_def)
    let ?i = "k div m" and ?j = "k mod m"
    have "X 0 \<le> X ?i" "X (?i + 1) \<le> X n" "Y 0 \<le> Y ?j" "Y (?j + 1) \<le> Y m"
      using div_lt [OF k] mod_lt [OF k] by (simp_all add: Xmono Ymono)
    with r show "minx \<le> fst p \<and> fst p \<le> maxx \<and> miny \<le> snd p \<and> snd p \<le> maxy"
      unfolding reg X0 Xn Y0 Ym by linarith
  next
    assume b: "minx \<le> fst p \<and> fst p \<le> maxx \<and> miny \<le> snd p \<and> snd p \<le> maxy"
    from b between_cells [of X "fst p" n] nm obtain i where i: "i < n" "X i \<le> fst p" "fst p \<le> X (Suc i)"
      by (auto simp: X0 Xn)
    from b between_cells [of Y "snd p" m] nm obtain j where j: "j < m" "Y j \<le> snd p" "snd p \<le> Y (Suc j)"
      by (auto simp: Y0 Ym)
    have "region (zone_geometry (C i j)) p" using i j by (simp add: reg)
    moreover have "C i j \<in> set zones"
      using cells [OF i(1) j(1)] cell_index(1) [OF i(1) j(1)] len by (metis nth_mem)
    ultimately show "\<exists>z \<in> set zones. region (zone_geometry z) p" by blast
  qed
  have disjoint: "\<not> (contains (zone_geometry (zones ! a)) p \<and> contains (zone_geometry (zones ! b)) p)"
    if "a < length zones" "b < length zones" "a \<noteq> b" for a b p
  proof
    assume c: "contains (zone_geometry (zones ! a)) p \<and> contains (zone_geometry (zones ! b)) p"
    from that have a: "a < n * m" and b: "b < n * m" by (simp_all add: len)
    from c have ca: "X (a div m) < fst p" "fst p < X (a div m + 1)" "Y (a mod m) < snd p" "snd p < Y (a mod m + 1)"
      and cb: "X (b div m) < fst p" "fst p < X (b div m + 1)" "Y (b mod m) < snd p" "snd p < Y (b mod m + 1)"
      by (simp_all add: zk a b con)
    have le_X: "i + 1 \<le> j \<Longrightarrow> X (i + 1) \<le> X j" and le_Y: "i + 1 \<le> j \<Longrightarrow> Y (i + 1) \<le> Y j" for i j
      by (rule Xmono, assumption) (rule Ymono, assumption)
    have "a div m = b div m"
    proof (rule ccontr)
      assume "a div m \<noteq> b div m"
      then consider "a div m + 1 \<le> b div m" | "b div m + 1 \<le> a div m" by linarith
      then show False
      proof cases
        case 1 from le_X [OF 1] ca cb show False by linarith
      next
        case 2 from le_X [OF 2] ca cb show False by linarith
      qed
    qed
    moreover have "a mod m = b mod m"
    proof (rule ccontr)
      assume "a mod m \<noteq> b mod m"
      then consider "a mod m + 1 \<le> b mod m" | "b mod m + 1 \<le> a mod m" by linarith
      then show False
      proof cases
        case 1 from le_Y [OF 1] ca cb show False by linarith
      next
        case 2 from le_Y [OF 2] ca cb show False by linarith
      qed
    qed
    ultimately have "a = b" by (metis div_mult_mod_eq)
    with that show False by simp
  qed
  show ?thesis
  proof (intro exI [of _ zones] conjI allI impI)
    show "grid_zones (minx, miny, maxx, maxy) nx ny = Inr zones" by (rule run)
    show "length zones = nat (nx * ny)" by (rule count)
  next
    fix i j assume "i < nat nx" "j < nat ny"
    then have ij: "i < n" "j < m" by (simp_all add: n_def m_def)
    from cells [OF ij] show "zones ! (i * nat ny + j) =
          \<lparr>zone_id = ''z'' @ str_of_nat i @ ''_'' @ str_of_nat j,
           zone_geometry =
             [(grid_at minx maxx nx i, grid_at miny maxy ny j),
              (grid_at minx maxx nx (i + 1), grid_at miny maxy ny j),
              (grid_at minx maxx nx (i + 1), grid_at miny maxy ny (j + 1)),
              (grid_at minx maxx nx i, grid_at miny maxy ny (j + 1))]\<rparr>"
      by (simp add: C_def X_def Y_def m_def)
    fix p
    from cells [OF ij] reg [of i j p]
    show "region (zone_geometry (zones ! (i * nat ny + j))) p \<longleftrightarrow>
           grid_at minx maxx nx i \<le> fst p \<and> fst p \<le> grid_at minx maxx nx (i + 1) \<and>
           grid_at miny maxy ny j \<le> snd p \<and> snd p \<le> grid_at miny maxy ny (j + 1)"
      by (simp add: X_def Y_def m_def)
  next
    fix p show "(\<exists>z \<in> set zones. region (zone_geometry z) p) \<longleftrightarrow>
           minx \<le> fst p \<and> fst p \<le> maxx \<and> miny \<le> snd p \<and> snd p \<le> maxy" by (rule cover)
  next
    fix a b p assume "a < length zones" "b < length zones" "a \<noteq> b"
    then show "\<not> (contains (zone_geometry (zones ! a)) p \<and> contains (zone_geometry (zones ! b)) p)"
      by (rule disjoint)
  qed
qed

text \<open>
  Claim C3. Let the bounding box \<open>(minx, miny, maxx, maxy)\<close> have positive width and
  height after its expansion by the buffer, and let the cell counts \<open>nx\<close> and \<open>ny\<close> be
  positive. The partitioner then returns exactly \<open>nx * ny\<close> zones. The zone of column
  \<open>i\<close> and row \<open>j\<close> is at position \<open>i * ny + j\<close>, has the identifier \<^verbatim>\<open>z{i}_{j}\<close>, and its
  polygon is the rectangle between the boundaries \<open>i\<close> and \<open>i + 1\<close> of the linear
  subdivision of \<open>[minx - buffer, maxx + buffer]\<close> into \<open>nx\<close> columns and the boundaries
  \<open>j\<close> and \<open>j + 1\<close> of the subdivision of \<open>[miny - buffer, maxy + buffer]\<close> into \<open>ny\<close> rows.
  The closed regions of the polygons cover exactly the expanded box
  \<open>[minx - buffer, maxx + buffer] \<times> [miny - buffer, maxy + buffer]\<close>, and no point is in
  the interior of two different zones.
\<close>

theorem partition_zones_tiling:
  assumes "minx - buffer < maxx + buffer" and "miny - buffer < maxy + buffer"
    and "0 < nx" and "0 < ny"
  shows "\<exists>zones. partition_zones (minx, miny, maxx, maxy) buffer nx ny = Inr zones \<and>
     length zones = nat (nx * ny) \<and>
     (\<forall>i < nat nx. \<forall>j < nat ny.
        zones ! (i * nat ny + j) =
          \<lparr>zone_id = ''z'' @ str_of_nat i @ ''_'' @ str_of_nat j,
           zone_geometry =
             [(grid_at (minx - buffer) (maxx + buffer) nx i,
               grid_at (miny - buffer) (maxy + buffer) ny j),
              (grid_at (minx - buffer) (maxx + buffer) nx (i + 1),
               grid_at (miny - buffer) (maxy + buffer) ny j),
              (grid_at (minx - buffer) (maxx + buffer) nx (i + 1),
               grid_at (miny - buffer) (maxy + buffer) ny (j + 1)),
              (grid_at (minx - buffer) (maxx + buffer) nx i,
               grid_at (miny - buffer) (maxy + buffer) ny (j + 1))]\<rparr> \<and>
        (\<forall>p. region (zone_geometry (zones ! (i * nat ny + j))) p \<longleftrightarrow>
           grid_at (minx - buffer) (maxx + buffer) nx i \<le> fst p \<and>
           fst p \<le> grid_at (minx - buffer) (maxx + buffer) nx (i + 1) \<and>
           grid_at (miny - buffer) (maxy + buffer) ny j \<le> snd p \<and>
           snd p \<le> grid_at (miny - buffer) (maxy + buffer) ny (j + 1))) \<and>
     (\<forall>p. (\<exists>z \<in> set zones. region (zone_geometry z) p) \<longleftrightarrow>
           minx - buffer \<le> fst p \<and> fst p \<le> maxx + buffer \<and>
           miny - buffer \<le> snd p \<and> snd p \<le> maxy + buffer) \<and>
     (\<forall>a < length zones. \<forall>b < length zones. a \<noteq> b \<longrightarrow>
        (\<forall>p. \<not> (contains (zone_geometry (zones ! a)) p \<and> contains (zone_geometry (zones ! b)) p)))"
  using grid_zones_tiling_aux [OF assms]
  unfolding partition_zones_def expand_bounds_def prod.case .

text \<open>
  The box from 0.5 to 1.5 in both directions with the buffer 0.5, and the box from 0 to
  2 with the buffer 0: in both cases the expanded box is the square from 0 to 2, cut
  into four unit squares.
\<close>

theorem partition_zones_tiling_witness:
  "partition_zones (1 / 2, 1 / 2, 3 / 2, 3 / 2) (1 / 2) 2 2 =
     Inr [\<lparr>zone_id = ''z0_0'', zone_geometry = [(0, 0), (1, 0), (1, 1), (0, 1)]\<rparr>,
          \<lparr>zone_id = ''z0_1'', zone_geometry = [(0, 1), (1, 1), (1, 2), (0, 2)]\<rparr>,
          \<lparr>zone_id = ''z1_0'', zone_geometry = [(1, 0), (2, 0), (2, 1), (1, 1)]\<rparr>,
          \<lparr>zone_id = ''z1_1'', zone_geometry = [(1, 1), (2, 1), (2, 2), (1, 2)]\<rparr>] \<and>
   partition_zones (0, 0, 2, 2) 0 2 2 =
     Inr [\<lparr>zone_id = ''z0_0'', zone_geometry = [(0, 0), (1, 0), (1, 1), (0, 1)]\<rparr>,
          \<lparr>zone_id = ''z0_1'', zone_geometry = [(0, 1), (1, 1), (1, 2), (0, 2)]\<rparr>,
          \<lparr>zone_id = ''z1_0'', zone_geometry = [(1, 0), (2, 0), (2, 1), (1, 1)]\<rparr>,
          \<lparr>zone_id = ''z1_1'', zone_geometry = [(1, 1), (2, 1), (2, 2), (1, 2)]\<rparr>]"
proof -
  have s: "str_of_nat 0 = ''0''" "str_of_nat (Suc 0) = ''1''" by code_simp+
  have four: "zones =
         [\<lparr>zone_id = ''z0_0'', zone_geometry = [(0, 0), (1, 0), (1, 1), (0, 1)]\<rparr>,
          \<lparr>zone_id = ''z0_1'', zone_geometry = [(0, 1), (1, 1), (1, 2), (0, 2)]\<rparr>,
          \<lparr>zone_id = ''z1_0'', zone_geometry = [(1, 0), (2, 0), (2, 1), (1, 1)]\<rparr>,
          \<lparr>zone_id = ''z1_1'', zone_geometry = [(1, 1), (2, 1), (2, 2), (1, 2)]\<rparr>]"
    if len: "length zones = 4"
      and c: "\<And>i j. i < 2 \<Longrightarrow> j < 2 \<Longrightarrow> zones ! (i * 2 + j) =
          \<lparr>zone_id = ''z'' @ str_of_nat i @ ''_'' @ str_of_nat j,
           zone_geometry =
             [(grid_at 0 2 2 i, grid_at 0 2 2 j),
              (grid_at 0 2 2 (i + 1), grid_at 0 2 2 j),
              (grid_at 0 2 2 (i + 1), grid_at 0 2 2 (j + 1)),
              (grid_at 0 2 2 i, grid_at 0 2 2 (j + 1))]\<rparr>"
    for zones :: "zone list"
  proof -
    from c [of 0 0] c [of 0 1] c [of 1 0] c [of 1 1]
    have "zones ! 0 = \<lparr>zone_id = ''z0_0'', zone_geometry = [(0, 0), (1, 0), (1, 1), (0, 1)]\<rparr>"
         "zones ! 1 = \<lparr>zone_id = ''z0_1'', zone_geometry = [(0, 1), (1, 1), (1, 2), (0, 2)]\<rparr>"
         "zones ! 2 = \<lparr>zone_id = ''z1_0'', zone_geometry = [(1, 0), (2, 0), (2, 1), (1, 1)]\<rparr>"
         "zones ! 3 = \<lparr>zone_id = ''z1_1'', zone_geometry = [(1, 1), (2, 1), (2, 2), (1, 2)]\<rparr>"
      by (simp_all add: s grid_at_def)
    with len show ?thesis
      by (intro nth_equalityI) (auto simp: less_Suc_eq numeral_eq_Suc)
  qed
  from partition_zones_tiling [of "1 / 2" "1 / 2" "3 / 2" "1 / 2" "3 / 2" 2 2]
  obtain zones where z: "partition_zones (1 / 2, 1 / 2, 3 / 2, 3 / 2) (1 / 2) 2 2 = Inr zones"
    and len: "length zones = 4"
    and c: "\<And>i j. i < 2 \<Longrightarrow> j < 2 \<Longrightarrow> zones ! (i * 2 + j) =
          \<lparr>zone_id = ''z'' @ str_of_nat i @ ''_'' @ str_of_nat j,
           zone_geometry =
             [(grid_at 0 2 2 i, grid_at 0 2 2 j),
              (grid_at 0 2 2 (i + 1), grid_at 0 2 2 j),
              (grid_at 0 2 2 (i + 1), grid_at 0 2 2 (j + 1)),
              (grid_at 0 2 2 i, grid_at 0 2 2 (j + 1))]\<rparr>"
    by auto
  from partition_zones_tiling [of 0 0 2 0 2 2 2]
  obtain zones' where z': "partition_zones (0, 0, 2, 2) 0 2 2 = Inr zones'"
    and len': "length zones' = 4"
    and c': "\<And>i j. i < 2 \<Longrightarrow> j < 2 \<Longrightarrow> zones' ! (i * 2 + j) =
          \<lparr>zone_id = ''z'' @ str_of_nat i @ ''_'' @ str_of_nat j,
           zone_geometry =
             [(grid_at 0 2 2 i, grid_at 0 2 2 j),
              (grid_at 0 2 2 (i + 1), grid_at 0 2 2 j),
              (grid_at 0 2 2 (i + 1), grid_at 0 2 2 (j + 1)),
              (grid_at 0 2 2 i, grid_at 0 2 2 (j + 1))]\<rparr>"
    by auto
  from four [OF len c] four [OF len' c'] z z' show ?thesis by simp
qed

section \<open>Failure and success of the grid construction\<close>

lemma linspace_error: "linspace a b num = Inl e \<longleftrightarrow> num < 0 \<and> e = ValueError"
  by (auto simp: linspace_def Let_def)

lemma linspace_ok: "linspace a b num = Inr ys \<Longrightarrow> 0 \<le> num"
  by (auto simp: linspace_def Let_def split: if_splits)

lemma length_make_zones: "length (make_zones xg yg nx ny) = nat nx * nat ny"
  by (simp add: make_zones_cells)

lemma make_zones_empty: "make_zones xg yg nx ny = [] \<longleftrightarrow> nx \<le> 0 \<or> ny \<le> 0"
  using length_make_zones [of xg yg nx ny] by (auto simp del: length_0_conv simp: length_0_conv [symmetric])

text \<open>
  The grid construction fails exactly when a cell count is not positive: below \<open>-1\<close> in
  \<^verbatim>\<open>np.linspace\<close>, and for 0 and \<open>-1\<close> in the construction of the table from the empty
  list of zones. The extent of the box is never examined: with positive cell counts
  every box is partitioned. In \<^verbatim>\<open>main\<close> the cell counts are 10 and 10 and the box is
  expanded by 0.01 on every side, so for ordered bounds the expanded box is at least
  0.02 wide and high and 100 zones are made.
\<close>

lemma grid_zones_error:
  "(\<exists>e. grid_zones b nx ny = Inl e) \<longleftrightarrow> nx \<le> 0 \<or> ny \<le> 0"
proof -
  obtain minx miny maxx maxy where b: "b = (minx, miny, maxx, maxy)" by (cases b) auto
  show ?thesis
    unfolding b grid_zones_def
    by (auto simp: linspace_error GeoDataFrame_def make_zones_empty
        split: sum.splits dest: linspace_ok)
qed

lemma grid_zones_any_box:
  assumes "0 < nx" and "0 < ny"
  shows "\<exists>zones. grid_zones b nx ny = Inr zones \<and> length zones = nat nx * nat ny"
proof -
  from assms grid_zones_error [of b nx ny]
  obtain zones where z: "grid_zones b nx ny = Inr zones"
    by (cases "grid_zones b nx ny") auto
  obtain minx miny maxx maxy where b: "b = (minx, miny, maxx, maxy)" by (cases b) auto
  from z have "length zones = nat nx * nat ny"
    by (auto simp: b grid_zones_def GeoDataFrame_def length_make_zones
        split: sum.splits if_splits)
  with z show ?thesis by blast
qed

lemma main_zones_ordered_bounds:
  assumes "minx \<le> maxx" and "miny \<le> maxy"
  shows "expand_bounds 0.01 (minx, miny, maxx, maxy) =
           (minx - 0.01, miny - 0.01, maxx + 0.01, maxy + 0.01) \<and>
         0.02 \<le> (maxx + 0.01) - (minx - 0.01) \<and> 0.02 \<le> (maxy + 0.01) - (miny - 0.01) \<and>
         (\<exists>zones. main_zones (minx, miny, maxx, maxy) = Inr zones \<and> length zones = 100)"
  using assms grid_zones_any_box [of 10 10 "expand_bounds 0.01 (minx, miny, maxx, maxy)"]
  by (simp add: expand_bounds_def main_zones_def partition_zones_def)

section \<open>Properties of the assignment\<close>

lemma assign_zone_find:
  "assign_zone p zones = map_option zone_id (find (\<lambda>z. contains (zone_geometry z) p) zones)"
  by (induction zones) simp_all

text \<open>
  Claim C4. The zones are tested in the order of the list. The result is the
  identifier of the first zone whose polygon contains the point: the zone at some
  position \<open>k\<close> contains it and no zone at an earlier position does. The result is
  \<^verbatim>\<open>None\<close> exactly when no zone contains the point; \<open>assign_zone\<close> is a total function,
  so this case is a value and not an error. In \<^verbatim>\<open>main\<close> the point is the centroid of the
  road in the projected frame and the zones are the projected zones.
\<close>

theorem assign_zone_first_match:
  "(assign_zone p zones = None \<longleftrightarrow> (\<forall>z \<in> set zones. \<not> contains (zone_geometry z) p)) \<and>
   (\<forall>zid. assign_zone p zones = Some zid \<longleftrightarrow>
      (\<exists>k < length zones. contains (zone_geometry (zones ! k)) p \<and> zone_id (zones ! k) = zid \<and>
         (\<forall>k' < k. \<not> contains (zone_geometry (zones ! k')) p)))"
  unfolding assign_zone_find
  by (auto simp: find_None_iff find_Some_iff)

theorem assign_zone_first_match_witness:
  "assign_zone (1 / 2, 1 / 2)
     [\<lparr>zone_id = ''z1_0'', zone_geometry = [(1, 0), (2, 0), (2, 1), (1, 1)]\<rparr>,
      \<lparr>zone_id = ''z0_0'', zone_geometry = [(0, 0), (1, 0), (1, 1), (0, 1)]\<rparr>,
      \<lparr>zone_id = ''again'', zone_geometry = [(0, 0), (1, 0), (1, 1), (0, 1)]\<rparr>] = Some ''z0_0'' \<and>
   assign_zone (5, 5)
     [\<lparr>zone_id = ''z1_0'', zone_geometry = [(1, 0), (2, 0), (2, 1), (1, 1)]\<rparr>,
      \<lparr>zone_id = ''z0_0'', zone_geometry = [(0, 0), (1, 0), (1, 1), (0, 1)]\<rparr>] = None"
  using assign_zone_first_match [of "(1 / 2, 1 / 2)"
      "[\<lparr>zone_id = ''z1_0'', zone_geometry = [(1, 0), (2, 0), (2, 1), (1, 1)]\<rparr>,
        \<lparr>zone_id = ''z0_0'', zone_geometry = [(0, 0), (1, 0), (1, 1), (0, 1)]\<rparr>,
        \<lparr>zone_id = ''again'', zone_geometry = [(0, 0), (1, 0), (1, 1), (0, 1)]\<rparr>]"]
    assign_zone_first_match [of "(5, 5)"
      "[\<lparr>zone_id = ''z1_0'', zone_geometry = [(1, 0), (2, 0), (2, 1), (1, 1)]\<rparr>,
        \<lparr>zone_id = ''z0_0'', zone_geometry = [(0, 0), (1, 0), (1, 1), (0, 1)]\<rparr>]"]
  by (simp add: contains_def ring_edges_def cross_def)

lemma contains_not_on_boundary:
  assumes "contains ring p"
  shows "\<not> on_boundary ring p"
proof
  assume "on_boundary ring p"
  then obtain a b where e: "(a, b) \<in> set (ring_edges ring)" and "on_segment a b p"
    by (auto simp: on_boundary_def list_ex_iff)
  then have "cross a b p = 0" by (simp add: on_segment_def)
  with assms e show False
    by (auto simp: contains_def list_all_iff)
qed

lemma contains_region: "contains ring p \<Longrightarrow> region ring p"
  by (auto simp: contains_def region_def list_all_iff less_imp_le)

text \<open>
  Claim C10. Containment is strict. If the point lies on the boundary of every zone
  whose closed region it is in (for example a point on the edge shared by two cells of
  the grid, which is outside all other cells), \<open>assign_zone\<close> returns \<^verbatim>\<open>None\<close>: the road
  is left unassigned. When an identifier is returned, the point is in the interior of
  that zone and not on its boundary.
\<close>

theorem assign_zone_boundary_exclusive:
  "((\<forall>z \<in> set zones. on_boundary (zone_geometry z) p \<or> \<not> region (zone_geometry z) p) \<longrightarrow>
      assign_zone p zones = None) \<and>
   (\<forall>zid. assign_zone p zones = Some zid \<longrightarrow>
      (\<exists>z \<in> set zones. zone_id z = zid \<and> contains (zone_geometry z) p \<and>
         region (zone_geometry z) p \<and> \<not> on_boundary (zone_geometry z) p))"
proof (intro conjI impI allI)
  assume "\<forall>z \<in> set zones. on_boundary (zone_geometry z) p \<or> \<not> region (zone_geometry z) p"
  then have "\<forall>z \<in> set zones. \<not> contains (zone_geometry z) p"
    using contains_not_on_boundary contains_region by blast
  then show "assign_zone p zones = None"
    by (induction zones) simp_all
next
  fix zid assume "assign_zone p zones = Some zid"
  then have "\<exists>z \<in> set zones. zone_id z = zid \<and> contains (zone_geometry z) p"
    by (induction zones) (auto split: if_splits)
  then show "\<exists>z \<in> set zones. zone_id z = zid \<and> contains (zone_geometry z) p \<and>
         region (zone_geometry z) p \<and> \<not> on_boundary (zone_geometry z) p"
    using contains_not_on_boundary contains_region by blast
qed

theorem assign_zone_boundary_exclusive_witness:
  "assign_zone (1, 1 / 2)
     [\<lparr>zone_id = ''z0_0'', zone_geometry = [(0, 0), (1, 0), (1, 1), (0, 1)]\<rparr>,
      \<lparr>zone_id = ''z0_1'', zone_geometry = [(0, 1), (1, 1), (1, 2), (0, 2)]\<rparr>,
      \<lparr>zone_id = ''z1_0'', zone_geometry = [(1, 0), (2, 0), (2, 1), (1, 1)]\<rparr>,
      \<lparr>zone_id = ''z1_1'', zone_geometry = [(1, 1), (2, 1), (2, 2), (1, 2)]\<rparr>] = None \<and>
   on_boundary [(0, 0), (1, 0), (1, 1), (0, 1)] (1, 1 / 2) \<and>
   on_boundary [(1, 0), (2, 0), (2, 1), (1, 1)] (1, 1 / 2) \<and>
   \<not> region [(0, 1), (1, 1), (1, 2), (0, 2)] (1, 1 / 2) \<and>
   \<not> region [(1, 1), (2, 1), (2, 2), (1, 2)] (1, 1 / 2)"
  using assign_zone_boundary_exclusive [of
      "[\<lparr>zone_id = ''z0_0'', zone_geometry = [(0, 0), (1, 0), (1, 1), (0, 1)]\<rparr>,
        \<lparr>zone_id = ''z0_1'', zone_geometry = [(0, 1), (1, 1), (1, 2), (0, 2)]\<rparr>,
        \<lparr>zone_id = ''z1_0'', zone_geometry = [(1, 0), (2, 0), (2, 1), (1, 1)]\<rparr>,
        \<lparr>zone_id = ''z1_1'', zone_geometry = [(1, 1), (2, 1), (2, 2), (1, 2)]\<rparr>]" "(1, 1 / 2)"]
  by (simp add: on_boundary_def on_segment_def region_def ring_edges_def cross_def)

section \<open>Properties of the aggregation\<close>

lemma set_map_filter: "set (List.map_filter f xs) = {y. \<exists>x \<in> set xs. f x = Some y}"
  by (induction xs) (auto simp: List.map_filter_def)

lemma map_of_groupby_mean:
  "map_of (groupby_mean roads) k =
     (if filter (\<lambda>r. road_zone_id r = Some k) roads = [] then None
      else Some (mean (map road_congestion (filter (\<lambda>r. road_zone_id r = Some k) roads))))"
proof -
  have "k \<in> set (remdups (List.map_filter road_zone_id roads)) \<longleftrightarrow>
        filter (\<lambda>r. road_zone_id r = Some k) roads \<noteq> []"
    by (auto simp: set_map_filter filter_empty_conv)
  then show ?thesis
    unfolding groupby_mean_def
    by (simp add: map_of_map_restrict restrict_map_def)
qed

lemma map_filter_non_null:
  "List.map_filter f (filter (\<lambda>r. f r \<noteq> None) xs) = List.map_filter f xs"
  by (induction xs) (auto simp: List.map_filter_def)

lemma filter_non_null:
  "filter (\<lambda>r. f r = Some k) (filter (\<lambda>r. f r \<noteq> None) xs) = filter (\<lambda>r. f r = Some k) xs"
  by (induction xs) auto

lemma groupby_mean_non_null:
  "groupby_mean (filter (\<lambda>r. road_zone_id r \<noteq> None) roads) = groupby_mean roads"
  unfolding groupby_mean_def map_filter_non_null filter_non_null ..

text \<open>
  Claim C5. Every zone keeps its row, and its congestion is the arithmetic mean of the
  congestion of the roads whose \<^verbatim>\<open>zone_id\<close> is the identifier of the zone, or 0 when
  there is no such road. The roads with a null \<^verbatim>\<open>zone_id\<close> take no part: the result is
  the same when they are removed beforehand.
\<close>

theorem aggregate_mean:
  "length (aggregate roads zones) = length zones \<and>
   (\<forall>k < length zones.
      let z = zones ! k;
          cs = map road_congestion (filter (\<lambda>r. road_zone_id r = Some (zone_id z)) roads)
      in zone_id (aggregate roads zones ! k) = zone_id z \<and>
         zone_geometry (aggregate roads zones ! k) = zone_geometry z \<and>
         zone_congestion (aggregate roads zones ! k) =
           (if cs = [] then 0 else sum_list cs / real (length cs))) \<and>
   aggregate roads zones = aggregate (filter (\<lambda>r. road_zone_id r \<noteq> None) roads) zones"
proof (intro conjI)
  show "aggregate roads zones = aggregate (filter (\<lambda>r. road_zone_id r \<noteq> None) roads) zones"
    unfolding aggregate_def groupby_mean_non_null ..
qed (simp_all add: aggregate_def merge_left_def map_of_groupby_mean fillna_def mean_def Let_def)

theorem aggregate_mean_witness:
  "map zone_congestion (aggregate
     [\<lparr>road_id = ''1'', highway = ''a'', road_geometry = [], road_zone_id = Some ''z0_0'', road_congestion = 0.2\<rparr>,
      \<lparr>road_id = ''2'', highway = ''a'', road_geometry = [], road_zone_id = None, road_congestion = 1\<rparr>,
      \<lparr>road_id = ''3'', highway = ''a'', road_geometry = [], road_zone_id = Some ''z0_0'', road_congestion = 0.4\<rparr>,
      \<lparr>road_id = ''4'', highway = ''a'', road_geometry = [], road_zone_id = Some ''z0_0'', road_congestion = 0.9\<rparr>]
     [\<lparr>zone_id = ''z0_0'', zone_geometry = []\<rparr>, \<lparr>zone_id = ''z0_1'', zone_geometry = []\<rparr>]) = [0.5, 0]"
  using aggregate_mean [of
     "[\<lparr>road_id = ''1'', highway = ''a'', road_geometry = [], road_zone_id = Some ''z0_0'', road_congestion = 0.2\<rparr>,
      \<lparr>road_id = ''2'', highway = ''a'', road_geometry = [], road_zone_id = None, road_congestion = 1\<rparr>,
      \<lparr>road_id = ''3'', highway = ''a'', road_geometry = [], road_zone_id = Some ''z0_0'', road_congestion = 0.4\<rparr>,
      \<lparr>road_id = ''4'', highway = ''a'', road_geometry = [], road_zone_id = Some ''z0_0'', road_congestion = 0.9\<rparr>]"
     "[\<lparr>zone_id = ''z0_0'', zone_geometry = []\<rparr>, \<lparr>zone_id = ''z0_1'', zone_geometry = []\<rparr>]"]
  by (simp add: aggregate_def merge_left_def groupby_mean_def fillna_def mean_def List.map_filter_def)

section \<open>The range of the congestion values\<close>

lemma sum_list_bounds:
  assumes "\<forall>x \<in> set xs. 0 \<le> x \<and> x \<le> (1::real)"
  shows "0 \<le> sum_list xs \<and> sum_list xs \<le> real (length xs)"
  using assms by (induction xs) auto

lemma mean_bounds:
  assumes "\<forall>x \<in> set xs. 0 \<le> x \<and> x \<le> (1::real)"
  shows "0 \<le> mean xs \<and> mean xs \<le> 1"
proof (cases "xs = []")
  case True
  then show ?thesis by (simp add: mean_def)
next
  case False
  then have "0 < real (length xs)" by simp
  with sum_list_bounds [OF assms] show ?thesis
    by (simp add: mean_def divide_le_eq)
qed

lemma aggregate_range:
  assumes "\<forall>r \<in> set roads. 0 \<le> road_congestion r \<and> road_congestion r \<le> 1"
  shows "\<forall>z \<in> set (aggregate roads zones). 0 \<le> zone_congestion z \<and> zone_congestion z \<le> 1"
proof -
  have "0 \<le> fillna 0 (map_of (groupby_mean roads) k) \<and> fillna 0 (map_of (groupby_mean roads) k) \<le> 1" for k
    using mean_bounds [of "map road_congestion (filter (\<lambda>r. road_zone_id r = Some k) roads)"] assms
    by (simp add: map_of_groupby_mean fillna_def)
  then show ?thesis
    by (auto simp: aggregate_def merge_left_def)
qed

lemma set_congestion_range:
  assumes "set_congestion roads (clip_all pred 0 1) = Inr roads'"
  shows "\<forall>r \<in> set roads'. 0 \<le> road_congestion r \<and> road_congestion r \<le> 1"
proof -
  have "\<forall>c \<in> set (clip_all pred 0 1). 0 \<le> c \<and> c \<le> 1"
    by (auto simp: clip_all_def clip_def)
  with assms show ?thesis
    by (auto simp: set_congestion_def split: if_splits dest!: set_zip_rightD)
qed

text \<open>
  Claim C9. With one prediction per road the run succeeds, and in its result the
  congestion of every road and of every zone lies in \<open>[0, 1]\<close>. The aggregation alone
  keeps the range: whenever the congestion of every road is in \<open>[0, 1]\<close>, so is the
  congestion of every zone, the default 0 of a zone without roads included.
\<close>

theorem process_main_congestion_range:
  "(length pred = length roads \<longrightarrow> (\<exists>roads' zones'. process_main roads zones pred = Inr (roads', zones'))) \<and>
   (\<forall>roads' zones'. process_main roads zones pred = Inr (roads', zones') \<longrightarrow>
      length roads' = length roads \<and> length zones' = length zones \<and>
      (\<forall>r \<in> set roads'. 0 \<le> road_congestion r \<and> road_congestion r \<le> 1) \<and>
      (\<forall>z \<in> set zones'. 0 \<le> zone_congestion z \<and> zone_congestion z \<le> 1)) \<and>
   ((\<forall>r \<in> set scored. 0 \<le> road_congestion r \<and> road_congestion r \<le> 1) \<longrightarrow>
      (\<forall>z \<in> set (aggregate scored zones). 0 \<le> zone_congestion z \<and> zone_congestion z \<le> 1))"
proof (intro conjI impI allI)
  assume "length pred = length roads"
  then show "\<exists>roads' zones'. process_main roads zones pred = Inr (roads', zones')"
    by (simp add: process_main_def set_congestion_def clip_all_def)
next
  fix roads' zones'
  assume p: "process_main roads zones pred = Inr (roads', zones')"
  then have s: "set_congestion roads (clip_all pred 0 1) = Inr roads'"
    and z: "zones' = aggregate roads' zones"
    by (auto simp: process_main_def split: sum.splits)
  from s show "length roads' = length roads"
    by (auto simp: set_congestion_def clip_all_def split: if_splits)
  from z show "length zones' = length zones"
    by (simp add: aggregate_def merge_left_def)
  from set_congestion_range [OF s]
  show r: "\<forall>r \<in> set roads'. 0 \<le> road_congestion r \<and> road_congestion r \<le> 1" .
  from aggregate_range [OF r] z
  show "\<forall>z \<in> set zones'. 0 \<le> zone_congestion z \<and> zone_congestion z \<le> 1" by simp
next
  assume "\<forall>r \<in> set scored. 0 \<le> road_congestion r \<and> road_congestion r \<le> 1"
  then show "\<forall>z \<in> set (aggregate scored zones). 0 \<le> zone_congestion z \<and> zone_congestion z \<le> 1"
    by (rule aggregate_range)
qed

theorem process_main_congestion_range_witness:
  "process_main
     [\<lparr>road_id = ''1'', highway = ''a'', road_geometry = [], road_zone_id = Some ''z0_0''\<rparr>,
      \<lparr>road_id = ''2'', highway = ''a'', road_geometry = [], road_zone_id = Some ''z0_0''\<rparr>]
     [\<lparr>zone_id = ''z0_0'', zone_geometry = []\<rparr>, \<lparr>zone_id = ''z0_1'', zone_geometry = []\<rparr>]
     [- 0.1, 1.3] =
   Inr ([\<lparr>road_id = ''1'', highway = ''a'', road_geometry = [], road_zone_id = Some ''z0_0'',
           road_congestion = 0\<rparr>,
         \<lparr>road_id = ''2'', highway = ''a'', road_geometry = [], road_zone_id = Some ''z0_0'',
           road_congestion = 1\<rparr>],
        [\<lparr>zone_id = ''z0_0'', zone_geometry = [], zone_congestion = 1 / 2\<rparr>,
         \<lparr>zone_id = ''z0_1'', zone_geometry = [], zone_congestion = 0\<rparr>])"
  using process_main_congestion_range [of "[- 0.1, 1.3]"
     "[\<lparr>road_id = ''1'', highway = ''a'', road_geometry = [], road_zone_id = Some ''z0_0''\<rparr>,
       \<lparr>road_id = ''2'', highway = ''a'', road_geometry = [], road_zone_id = Some ''z0_0''\<rparr>]"
     "[\<lparr>zone_id = ''z0_0'', zone_geometry = []\<rparr>, \<lparr>zone_id = ''z0_1'', zone_geometry = []\<rparr>]"
     "[]"]
  by (simp add: process_main_def set_congestion_def clip_all_def clip_def aggregate_def
      merge_left_def groupby_mean_def fillna_def mean_def List.map_filter_def)

section \<open>Properties of the phase offset\<close>

lemma lcg_urandom_numeral:
  "lcg_urandom x (numeral k) =
     (let x = lcg_step x in ucast (drop_bit 16 x AND 0xff) # lcg_urandom x (pred_numeral k))"
  by (simp add: numeral_eq_Suc)

text \<open>
  The keys of the processes started with \<^verbatim>\<open>PYTHONHASHSEED\<close> set to 1, 2 and 7, and
  SipHash-1-3 of the two bytes of \<^verbatim>\<open>'42'\<close> under each of them.
\<close>

lemma secret_of_seed_1: "secret_of_seed 1 = (12598376723466036009, 16999324916296290386)"
  by (simp add: secret_of_seed_def lcg_urandom_numeral lcg_step_def le64_def)

lemma secret_of_seed_2: "secret_of_seed 2 = (4611336564914921517, 11932672506142756049)"
  by (simp add: secret_of_seed_def lcg_urandom_numeral lcg_step_def le64_def)

lemma secret_of_seed_7: "secret_of_seed 7 = (1353459925018152509, 5119055465687447631)"
  by (simp add: secret_of_seed_def lcg_urandom_numeral lcg_step_def le64_def)

lemma siphash13_seed_1:
  "siphash13 12598376723466036009 16999324916296290386 [52, 50] = 16562413307970529020"
proof -
  have blocks: "sip_blocks (15976802823627949660, 10342175217285988159, 14028444029786214728, 11496809773508982049) [52, 50] =
      ((15976802823627949660, 10342175217285988159, 14028444029786214728, 11496809773508982049), [52, 50])"
    by (simp add: sip_blocks.simps)
  have round1: "single_round (15976802823627949660, 10342175217285988159, 14028444029786214728, 11352694585433114389) =
      (6026846273792659686, 11937244025748366547, 11472300785502110728, 3969124077074621930)"
    by (simp add: single_round_def half_round_def ROTATE_def)
  have round2: "single_round (5882731085716808402, 11937244025748366547, 11472300785502110967, 3969124077074621930) =
      (1750340082431992551, 8000903407183025255, 18265155268513263656, 12973516906305896842)"
    by (simp add: single_round_def half_round_def ROTATE_def)
  have round3: "single_round (1750340082431992551, 8000903407183025255, 18265155268513263656, 12973516906305896842) =
      (11402455119192024579, 973865215215794199, 15083905770225480182, 13330310629986552501)"
    by (simp add: single_round_def half_round_def ROTATE_def)
  have round4: "single_round (11402455119192024579, 973865215215794199, 15083905770225480182, 13330310629986552501) =
      (15242965986534771226, 7508871855128550534, 6595587991576325258, 426861841729051882)"
    by (simp add: single_round_def half_round_def ROTATE_def)
  show ?thesis
    by (simp add: siphash13_def blocks le64_def round1 round2 round3 round4)
qed

lemma siphash13_seed_2:
  "siphash13 4611336564914921517 11932672506142756049 [52, 50] = 12308996990556287768"
proof -
  have blocks: "sip_blocks (5517383750665979224, 13976406929880245180, 6018961163946250828, 15131032681552406946) [52, 50] =
      ((5517383750665979224, 13976406929880245180, 6018961163946250828, 15131032681552406946), [52, 50])"
    by (simp add: sip_blocks.simps)
  have round1: "single_round (5517383750665979224, 13976406929880245180, 6018961163946250828, 15275147869628259222) =
      (9607555339314256245, 1788179623880706304, 12562191982321620101, 17754811314594146498)"
    by (simp add: single_round_def half_round_def ROTATE_def)
  have round2: "single_round (9751670527390116673, 1788179623880706304, 12562191982321620090, 17754811314594146498) =
      (14566376124673561579, 14064785384264010789, 12798936122039530225, 9134375236300103381)"
    by (simp add: single_round_def half_round_def ROTATE_def)
  have round3: "single_round (14566376124673561579, 14064785384264010789, 12798936122039530225, 9134375236300103381) =
      (10417673405626122423, 7979549261317011810, 11847539316292202704, 14332815290824208603)"
    by (simp add: single_round_def half_round_def ROTATE_def)
  have round4: "single_round (10417673405626122423, 7979549261317011810, 11847539316292202704, 14332815290824208603) =
      (408630393106118605, 5622753348167443624, 5094725089337544680, 12089343350292197269)"
    by (simp add: single_round_def half_round_def ROTATE_def)
  show ?thesis
    by (simp add: siphash13_def blocks le64_def round1 round2 round3 round4)
qed

lemma siphash13_seed_7:
  "siphash13 1353459925018152509 5119055465687447631 [52, 50] = 11267448338284264536"
proof -
  have blocks: "sip_blocks (7036621276422368072, 2550721512738264866, 9129099656184888412, 3706442360677604668) [52, 50] =
      ((7036621276422368072, 2550721512738264866, 9129099656184888412, 3706442360677604668), [52, 50])"
    by (simp add: sip_blocks.simps)
  have round1: "single_round (7036621276422368072, 2550721512738264866, 9129099656184888412, 3562327172601753352) =
      (16529341195730923395, 2702409839080572316, 12963454756425853187, 16072277445116304819)"
    by (simp add: single_round_def half_round_def ROTATE_def)
  have round2: "single_round (16673456383806774711, 2702409839080572316, 12963454756425853436, 16072277445116304819) =
      (12145582068190822479, 16419571103687216768, 15586306929742103786, 14870949334985898987)"
    by (simp add: single_round_def half_round_def ROTATE_def)
  have round3: "single_round (12145582068190822479, 16419571103687216768, 15586306929742103786, 14870949334985898987) =
      (12931611813488385580, 5703964826058459493, 8205861479273219770, 9275350348783665084)"
    by (simp add: single_round_def half_round_def ROTATE_def)
  have round4: "single_round (12931611813488385580, 5703964826058459493, 8205861479273219770, 9275350348783665084) =
      (3758349080475690245, 14739280931058971301, 12726421486114546224, 15305332716134730184)"
    by (simp add: single_round_def half_round_def ROTATE_def)
  show ?thesis
    by (simp add: siphash13_def blocks le64_def round1 round2 round3 round4)
qed

lemma hash_42_seed_1: "py_hash (secret_of_seed 1) (StrId ''42'') = - 1884330765739022596"
  by (simp add: py_hash_def hash_bytes_def str_bytes_def secret_of_seed_1 siphash13_seed_1)

lemma hash_42_seed_2: "py_hash (secret_of_seed 2) (StrId ''42'') = - 6137747083153263848"
  by (simp add: py_hash_def hash_bytes_def str_bytes_def secret_of_seed_2 siphash13_seed_2)

lemma hash_42_seed_7: "py_hash (secret_of_seed 7) (StrId ''42'') = - 7179295735425287080"
  by (simp add: py_hash_def hash_bytes_def str_bytes_def secret_of_seed_7 siphash13_seed_7)

lemma long_hash_small:
  assumes "0 \<le> n" and "n < 2 ^ 61 - 1"
  shows "long_hash n = n"
proof -
  from assms have a: "\<bar>n\<bar> mod (2 ^ 61 - 1) = n" by simp
  from assms(1) have b: "sgn n * n = n" by (cases "n = 0") simp_all
  have "long_hash n = (if n = - 1 then - 2 else n)"
    unfolding long_hash_def Let_def a b ..
  with assms(1) show ?thesis by simp
qed

text \<open>
  Claim C1, as stated, fails: the offset of a road depends on the hash key of the
  process. For the road identifier \<^verbatim>\<open>'42'\<close> the process started with
  \<^verbatim>\<open>PYTHONHASHSEED=1\<close> computes the offset 8 and the process started with
  \<^verbatim>\<open>PYTHONHASHSEED=2\<close> the offset 4.
\<close>

theorem phase_offset_differs_between_processes:
  "phase_offset (secret_of_seed 1) (StrId ''42'') 12 = Inr 8 \<and>
   phase_offset (secret_of_seed 2) (StrId ''42'') 12 = Inr 4"
  by (simp add: phase_offset_def hash_42_seed_1 hash_42_seed_2)

text \<open>
  Claim C1, amended. The offset is the built-in hash of the identifier modulo 12, an
  integer in \<open>[0, 12)\<close>. It is a function of the identifier and of the hash key of the
  process, so two runs with the same key obtain the same offset. For an integer
  identifier the key plays no role: the offset is the same in every run, and it is the
  identifier modulo 12 when the identifier is at least 0 and below \<open>2^61 - 1\<close>. For a
  string identifier the hash is SipHash-1-3 of the identifier under the key (0 for the
  empty string, whose offset is 0 under every key), and two runs with different keys
  may or may not agree: the identifier \<^verbatim>\<open>'42'\<close> has the hashes \<open>-1884330765739022596\<close>,
  \<open>-6137747083153263848\<close> and \<open>-7179295735425287080\<close> and the offsets 8, 4 and 8 under
  the keys of \<^verbatim>\<open>PYTHONHASHSEED\<close> 1, 2 and 7.
\<close>

theorem phase_offset_per_process:
  "phase_offset key rid 12 = Inr (py_hash key rid mod 12) \<and>
   0 \<le> py_hash key rid mod 12 \<and> py_hash key rid mod 12 < 12 \<and>
   (key = key' \<longrightarrow> phase_offset key rid 12 = phase_offset key' rid 12) \<and>
   phase_offset key (IntId n) 12 = phase_offset key' (IntId n) 12 \<and>
   (0 \<le> n \<and> n < 2 ^ 61 - 1 \<longrightarrow> phase_offset key (IntId n) 12 = Inr (n mod 12)) \<and>
   py_hash key (StrId s) =
     (if s = [] then 0
      else if sint (siphash13 (fst key) (snd key) (str_bytes s)) = - 1 then - 2
      else sint (siphash13 (fst key) (snd key) (str_bytes s))) \<and>
   phase_offset key (StrId []) 12 = Inr 0 \<and>
   py_hash (secret_of_seed 1) (StrId ''42'') = - 1884330765739022596 \<and>
   py_hash (secret_of_seed 2) (StrId ''42'') = - 6137747083153263848 \<and>
   py_hash (secret_of_seed 7) (StrId ''42'') = - 7179295735425287080 \<and>
   phase_offset (secret_of_seed 1) (StrId ''42'') 12 = Inr 8 \<and>
   phase_offset (secret_of_seed 2) (StrId ''42'') 12 = Inr 4 \<and>
   phase_offset (secret_of_seed 7) (StrId ''42'') 12 = Inr 8"
proof (intro conjI impI)
  show "py_hash key (StrId s) =
     (if s = [] then 0
      else if sint (siphash13 (fst key) (snd key) (str_bytes s)) = - 1 then - 2
      else sint (siphash13 (fst key) (snd key) (str_bytes s)))"
    by (simp add: py_hash_def hash_bytes_def str_bytes_def Let_def)
  show "phase_offset key (StrId []) 12 = Inr 0"
    by (simp add: phase_offset_def py_hash_def hash_bytes_def str_bytes_def)
  show "phase_offset key (IntId n) 12 = phase_offset key' (IntId n) 12"
    by (simp add: phase_offset_def py_hash_def)
  show "phase_offset key (IntId n) 12 = Inr (n mod 12)" if "0 \<le> n \<and> n < 2 ^ 61 - 1"
    using that long_hash_small [of n] by (simp add: phase_offset_def py_hash_def)
  show "py_hash (secret_of_seed 1) (StrId ''42'') = - 1884330765739022596"
    by (rule hash_42_seed_1)
  show "py_hash (secret_of_seed 2) (StrId ''42'') = - 6137747083153263848"
    by (rule hash_42_seed_2)
  show "py_hash (secret_of_seed 7) (StrId ''42'') = - 7179295735425287080"
    by (rule hash_42_seed_7)
  show "phase_offset (secret_of_seed 1) (StrId ''42'') 12 = Inr 8"
    by (simp add: phase_offset_def hash_42_seed_1)
  show "phase_offset (secret_of_seed 2) (StrId ''42'') 12 = Inr 4"
    by (simp add: phase_offset_def hash_42_seed_2)
  show "phase_offset (secret_of_seed 7) (StrId ''42'') 12 = Inr 8"
    by (simp add: phase_offset_def hash_42_seed_7)
qed (simp_all add: phase_offset_def)

theorem phase_offset_per_process_witness:
  "phase_offset (secret_of_seed 1) (IntId 42) 12 = Inr 6 \<and>
   phase_offset (secret_of_seed 2) (IntId 42) 12 = Inr 6 \<and>
   phase_offset (secret_of_seed 1) (IntId (- 1)) 12 = Inr 10"
  using phase_offset_per_process [of "secret_of_seed 1" "IntId 42" "secret_of_seed 1" 42 "[]"]
    phase_offset_per_process [of "secret_of_seed 1" "IntId (- 1)" "secret_of_seed 2" 42 "[]"]
  by (simp add: phase_offset_def py_hash_def long_hash_def)

section \<open>Properties of the parsing and assignment passes\<close>
















end
